theory Spec2Isabelle
  imports Complex_Main
begin

section \<open>JavaScript strings\<close>

text \<open>
  A JavaScript string is a sequence of UTF-16 code units, modelled as a list of natural
  numbers. \<open>js\<close> embeds an ASCII literal. \<open>trim\<close> is \<^verbatim>\<open>String.prototype.trim\<close>: it removes
  the code units of the ECMAScript classes WhiteSpace and LineTerminator from both ends.
\<close>

type_synonym jsstring = "nat list"

definition js :: "string \<Rightarrow> jsstring" where
  "js s = map of_char s"

definition isWhiteSpace :: "nat \<Rightarrow> bool" where
  "isWhiteSpace c =
     (c = 9 \<or> c = 10 \<or> c = 11 \<or> c = 12 \<or> c = 13 \<or> c = 32 \<or> c = 160 \<or> c = 5760 \<or>
      (8192 \<le> c \<and> c \<le> 8202) \<or> c = 8232 \<or> c = 8233 \<or> c = 8239 \<or> c = 8287 \<or>
      c = 12288 \<or> c = 65279)"

definition trim :: "jsstring \<Rightarrow> jsstring" where
  "trim s = rev (dropWhile isWhiteSpace (rev (dropWhile isWhiteSpace s)))"

text \<open>Truthiness of a value of type \<^verbatim>\<open>string | null\<close>: null and the empty string are falsy.\<close>

definition truthy :: "jsstring option \<Rightarrow> bool" where
  "truthy x = (case x of None \<Rightarrow> False | Some s \<Rightarrow> s \<noteq> [])"

text \<open>\<^verbatim>\<open>x || null\<close> for an optional string \<open>x\<close> (\<open>None\<close> is \<^verbatim>\<open>undefined\<close>).\<close>

definition or_null :: "jsstring option \<Rightarrow> jsstring option" where
  "or_null x = (if truthy x then x else None)"

section \<open>State of the two hooks\<close>

type_synonym track = nat

text \<open>
  The state of \<^verbatim>\<open>useWebSpeech\<close>: its four \<^verbatim>\<open>useState\<close> cells, the capability probe
  \<open>isSupported\<close>, and \<open>recognition\<close>, which says whether the ref \<^verbatim>\<open>recognition.current\<close>
  holds an engine. The object the hook returns on a render carries the same fields, so a
  value of this record is also the \<^verbatim>\<open>webSpeech\<close> object that a callback created on that
  render closes over.
\<close>

record WebSpeech =
  isListening :: bool
  isSupported :: bool
  transcript :: jsstring
  ws_error :: "jsstring option"
  confidence :: real
  recognition :: bool

text \<open>
  The state of \<^verbatim>\<open>useVoiceRecording\<close>: three \<^verbatim>\<open>useState\<close> cells and two refs. A media
  recorder is represented by the tracks of the stream it records; a chunk by its size.
\<close>

record Voice =
  isRecording :: bool
  isProcessing :: bool
  error :: "jsstring option"
  mediaRecorder :: "track list option"
  audioChunks :: "nat list"

section \<open>Effects\<close>

text \<open>
  Every function of the two hooks is modelled by the sequence of effects it performs, in
  program order: calls of state setters, writes of refs, calls into the platform, and the
  settlement of the promise it returns. Conditions are evaluated on the values the
  callback closes over (the state of the render that created it); a setter call does not
  change them, it only changes the state of the next render, which \<open>run\<close> computes.
\<close>

datatype effect =
    SetIsRecording bool
  | SetIsProcessing bool
  | SetError "jsstring option"
  | WsSetIsListening bool
  | WsSetTranscript jsstring
  | WsSetError "jsstring option"
  | WsSetConfidence real
  | NewSpeechRecognition
  | RecognitionStart
  | RecognitionStop
  | GetUserMedia
  | NewMediaRecorder "track list"
  | ClearAudioChunks
  | PushChunk nat
  | RecorderStart nat
  | RecorderStop
  | TrackStop track
  | SetTimeout nat
  | ReadAsDataURL
  | InvokeVoiceToText
  | Resolve "jsstring option"
  | Return

fun apply_effect :: "effect \<Rightarrow> Voice \<times> WebSpeech \<Rightarrow> Voice \<times> WebSpeech" where
  "apply_effect (SetIsRecording b) (v, w) = (v\<lparr>isRecording := b\<rparr>, w)"
| "apply_effect (SetIsProcessing b) (v, w) = (v\<lparr>isProcessing := b\<rparr>, w)"
| "apply_effect (SetError e) (v, w) = (v\<lparr>error := e\<rparr>, w)"
| "apply_effect (WsSetIsListening b) (v, w) = (v, w\<lparr>isListening := b\<rparr>)"
| "apply_effect (WsSetTranscript t) (v, w) = (v, w\<lparr>transcript := t\<rparr>)"
| "apply_effect (WsSetError e) (v, w) = (v, w\<lparr>ws_error := e\<rparr>)"
| "apply_effect (WsSetConfidence c) (v, w) = (v, w\<lparr>confidence := c\<rparr>)"
| "apply_effect NewSpeechRecognition (v, w) = (v, w\<lparr>recognition := True\<rparr>)"
| "apply_effect (NewMediaRecorder ts) (v, w) = (v\<lparr>mediaRecorder := Some ts\<rparr>, w)"
| "apply_effect ClearAudioChunks (v, w) = (v\<lparr>audioChunks := []\<rparr>, w)"
| "apply_effect (PushChunk n) (v, w) = (v\<lparr>audioChunks := audioChunks v @ [n]\<rparr>, w)"
| "apply_effect RecognitionStart s = s"
| "apply_effect RecognitionStop s = s"
| "apply_effect GetUserMedia s = s"
| "apply_effect (RecorderStart n) s = s"
| "apply_effect RecorderStop s = s"
| "apply_effect (TrackStop t) s = s"
| "apply_effect (SetTimeout n) s = s"
| "apply_effect ReadAsDataURL s = s"
| "apply_effect InvokeVoiceToText s = s"
| "apply_effect (Resolve r) s = s"
| "apply_effect Return s = s"

definition run :: "effect list \<Rightarrow> Voice \<times> WebSpeech \<Rightarrow> Voice \<times> WebSpeech" where
  "run es s = fold apply_effect es s"

text \<open>The value a trace resolves its promise with, if it does.\<close>

fun resolved :: "effect list \<Rightarrow> jsstring option option" where
  "resolved [] = None"
| "resolved (Resolve r # es) = Some r"
| "resolved (e # es) = resolved es"

text \<open>The tracks stopped by a trace, one entry for each call of \<^verbatim>\<open>track.stop()\<close>.\<close>

fun stopped_tracks :: "effect list \<Rightarrow> track list" where
  "stopped_tracks [] = []"
| "stopped_tracks (TrackStop t # es) = t # stopped_tracks es"
| "stopped_tracks (e # es) = stopped_tracks es"

text \<open>The part of a trace that precedes the settle delay \<^verbatim>\<open>setTimeout(resolve, 1000)\<close>.\<close>

definition before_settle :: "effect list \<Rightarrow> effect list" where
  "before_settle es = takeWhile (\<lambda>e. e \<noteq> SetTimeout 1000) es"

section \<open>useWebSpeech\<close>

text \<open>
  What the platform does when \<^verbatim>\<open>startListening\<close> creates and starts the engine: the
  constructor throws, \<^verbatim>\<open>start()\<close> throws, or the engine starts.
\<close>

datatype engine = ConstructorThrows | StartThrows | Starts

text \<open>The \<^verbatim>\<open>try\<close> block of \<^verbatim>\<open>startListening\<close>; \<open>Inl\<close> carries the effects performed before a throw.\<close>

definition startListening_try :: "engine \<Rightarrow> effect list + effect list" where
  "startListening_try eng =
     (case eng of
        ConstructorThrows \<Rightarrow> Inl [WsSetError None, WsSetTranscript []]
      | StartThrows \<Rightarrow> Inl [WsSetError None, WsSetTranscript [], NewSpeechRecognition]
      | Starts \<Rightarrow>
          Inr [WsSetError None, WsSetTranscript [], NewSpeechRecognition, RecognitionStart])"

definition startListening :: "engine \<Rightarrow> WebSpeech \<Rightarrow> effect list" where
  "startListening eng w =
     (if \<not> isSupported w
      then [WsSetError (Some (js ''Speech recognition is not supported in this browser''))]
      else (case startListening_try eng of
              Inr es \<Rightarrow> es
            | Inl es \<Rightarrow>
                es @ [WsSetError (Some (js ''Failed to start speech recognition'')),
                      WsSetIsListening False]))"

definition stopListening :: "WebSpeech \<Rightarrow> effect list" where
  "stopListening w = (if recognition w then [RecognitionStop] else [])"

text \<open>
  The callbacks installed on the engine. \<open>OnResult t c f\<close> is a result event whose last
  result has first alternative \<open>t\<close> with confidence \<open>c\<close> (\<open>None\<close> when absent) and
  \<^verbatim>\<open>isFinal\<close> \<open>f\<close>.
\<close>

datatype engine_event =
    OnStart
  | OnResult jsstring "real option" bool
  | OnError jsstring
  | OnEnd

fun handle :: "engine_event \<Rightarrow> effect list" where
  "handle OnStart = [WsSetIsListening True]"
| "handle (OnResult t c isFinal) =
     [WsSetTranscript t, WsSetConfidence (case c of None \<Rightarrow> 0 | Some x \<Rightarrow> x)] @
     (if isFinal then [WsSetIsListening False] else [])"
| "handle (OnError code) =
     [WsSetError (Some (js ''Speech recognition error: '' @ code)), WsSetIsListening False]"
| "handle OnEnd = [WsSetIsListening False]"

definition handle_all :: "engine_event list \<Rightarrow> effect list" where
  "handle_all evs = concat (map handle evs)"

section \<open>useVoiceRecording\<close>

text \<open>
  What the platform does on the device path of \<^verbatim>\<open>startRecording\<close>: \<^verbatim>\<open>getUserMedia\<close>
  rejects, the recorder's constructor throws, \<^verbatim>\<open>start(1000)\<close> throws, or capture begins
  on a stream with the given tracks.
\<close>

datatype capture =
    GetUserMediaRejects
  | NewMediaRecorderThrows "track list"
  | RecorderStartThrows "track list"
  | Captures "track list"

definition startRecording_try :: "capture \<Rightarrow> effect list + effect list" where
  "startRecording_try cap =
     (case cap of
        GetUserMediaRejects \<Rightarrow> Inl [GetUserMedia]
      | NewMediaRecorderThrows ts \<Rightarrow> Inl [GetUserMedia]
      | RecorderStartThrows ts \<Rightarrow> Inl [GetUserMedia, NewMediaRecorder ts, ClearAudioChunks]
      | Captures ts \<Rightarrow>
          Inr [GetUserMedia, NewMediaRecorder ts, ClearAudioChunks, RecorderStart 1000,
               SetIsRecording True])"

definition startRecording :: "capture \<Rightarrow> engine \<Rightarrow> WebSpeech \<Rightarrow> effect list" where
  "startRecording cap eng w =
     SetError None #
     (if isSupported w then startListening eng w @ [SetIsRecording True, Return]
      else (case startRecording_try cap of
              Inr es \<Rightarrow> es
            | Inl es \<Rightarrow>
                es @ [SetError (Some (js
                  ''Failed to start recording. Please check microphone permissions.''))])
           @ [Return])"

definition ondataavailable :: "nat \<Rightarrow> effect list" where
  "ondataavailable sz = (if sz > 0 then [PushChunk sz] else [])"

text \<open>
  What happens to the recording after the recorder has stopped: building the blob or
  starting the reader throws; the reader ends without a result, so that \<^verbatim>\<open>split\<close> throws;
  the gateway call rejects or returns an error; the gateway returns neither an error nor
  a body, so that \<^verbatim>\<open>data.text\<close> throws after \<^verbatim>\<open>setIsProcessing(false)\<close>; or the gateway
  returns a body with \<^verbatim>\<open>data.text\<close>.
\<close>

datatype upload =
    BlobFails
  | ReaderFails
  | GatewayFails
  | GatewayNoData
  | GatewayReturns "jsstring option"

definition processing_catch :: "effect list" where
  "processing_catch =
     [SetError (Some (js ''API quota exceeded. Please try the built-in voice recognition.'')),
      SetIsProcessing False, Resolve None]"

definition onloadend :: "upload \<Rightarrow> effect list" where
  "onloadend up =
     (case up of
        BlobFails \<Rightarrow> []
      | ReaderFails \<Rightarrow> processing_catch
      | GatewayFails \<Rightarrow> InvokeVoiceToText # processing_catch
      | GatewayNoData \<Rightarrow> [InvokeVoiceToText, SetIsProcessing False] @ processing_catch
      | GatewayReturns t \<Rightarrow> [InvokeVoiceToText, SetIsProcessing False, Resolve (or_null t)])"

text \<open>
  The recorder's \<^verbatim>\<open>onstop\<close> handler, followed by the reader's \<^verbatim>\<open>onloadend\<close> handler when
  the reader was started. The tracks are stopped at the end of \<^verbatim>\<open>onstop\<close>, before the
  reader completes.
\<close>

definition onstop :: "upload \<Rightarrow> Voice \<Rightarrow> effect list" where
  "onstop up v =
     [SetIsRecording False, SetIsProcessing True] @
     (case up of
        BlobFails \<Rightarrow>
          [SetError (Some (js ''Failed to process recording.'')), SetIsProcessing False,
           Resolve None]
      | _ \<Rightarrow> [ReadAsDataURL]) @
     map TrackStop (case mediaRecorder v of None \<Rightarrow> [] | Some ts \<Rightarrow> ts) @
     onloadend up"

text \<open>
  The decision taken after the settle delay, on the \<^verbatim>\<open>webSpeech\<close> object the callback
  closes over.
\<close>

definition webSpeech_result :: "WebSpeech \<Rightarrow> effect list" where
  "webSpeech_result w =
     (if transcript w \<noteq> [] \<and> trim (transcript w) \<noteq> []
      then [Resolve (Some (trim (transcript w)))]
      else if truthy (ws_error w)
      then [SetError (Some (js ''Web Speech API error: '' @ the (ws_error w))), Resolve None]
      else [SetError (Some (js ''No speech detected. Please try again.'')), Resolve None])"

text \<open>
  \<^verbatim>\<open>stopRecording\<close>, called on a render with state \<open>v\<close> and adapter object \<open>w\<close>. \<open>evs\<close> are
  the engine callbacks that run while the call is suspended in the settle delay; they
  change the adapter's state, not the object \<open>w\<close> the suspended call reads afterwards.
  The recorder's \<^verbatim>\<open>stop()\<close> delivers the stop event once.
\<close>

definition stopRecording ::
  "engine_event list \<Rightarrow> upload \<Rightarrow> Voice \<Rightarrow> WebSpeech \<Rightarrow> effect list" where
  "stopRecording evs up v w =
     (if \<not> isRecording v then [Resolve None]
      else if isListening w
      then stopListening w @ [SetIsRecording False, SetTimeout 1000] @ handle_all evs @
           webSpeech_result w
      else (case mediaRecorder v of
              None \<Rightarrow> [Resolve None]
            | Some ts \<Rightarrow> RecorderStop # onstop up v))"

text \<open>The fields of the object \<^verbatim>\<open>useVoiceRecording\<close> returns on a render.\<close>

record VoiceRecordingHook =
  hook_isRecording :: bool
  hook_isProcessing :: bool
  hook_error :: "jsstring option"

definition useVoiceRecording :: "Voice \<times> WebSpeech \<Rightarrow> VoiceRecordingHook" where
  "useVoiceRecording s =
     \<lparr> hook_isRecording = (isRecording (fst s) \<or> isListening (snd s)),
       hook_isProcessing = isProcessing (fst s),
       hook_error = (if truthy (error (fst s)) then error (fst s) else ws_error (snd s)) \<rparr>"

text \<open>The state on the first render.\<close>

definition initial :: "bool \<Rightarrow> Voice \<times> WebSpeech" where
  "initial supported =
     (\<lparr> isRecording = False, isProcessing = False, error = None, mediaRecorder = None,
        audioChunks = [] \<rparr>,
      \<lparr> isListening = False, isSupported = supported, transcript = [], ws_error = None,
        confidence = 0, recognition = False \<rparr>)"

text \<open>
  The state of a session started on the in-browser path from the first render, after the
  engine callbacks \<open>evs\<close> have run. The capture outcome passed to \<open>startRecording\<close> plays
  no part on this path.
\<close>

definition in_browser_session :: "engine_event list \<Rightarrow> Voice \<times> WebSpeech" where
  "in_browser_session evs =
     run (handle_all evs)
       (run (startRecording GetUserMediaRejects Starts (snd (initial True))) (initial True))"

text \<open>
  The state of a session started on the device path from the first render, capturing a
  stream with tracks \<open>ts\<close>.
\<close>

definition device_session :: "track list \<Rightarrow> Voice \<times> WebSpeech" where
  "device_session ts =
     run (startRecording (Captures ts) Starts (snd (initial False))) (initial False)"

text \<open>
  A check that runs along a trace: \<open>st\<close> says the recorder has been stopped, \<open>rs\<close> that the
  promise has been resolved, \<open>p\<close> is the value of \<open>isProcessing\<close>. It holds when, at every
  point of the trace, \<open>isProcessing\<close> being true means that the recorder has been stopped
  and the promise is not yet resolved.
\<close>

fun proc_step :: "effect \<Rightarrow> bool \<Rightarrow> bool" where
  "proc_step (SetIsProcessing b) p = b"
| "proc_step e p = p"

fun isResolve :: "effect \<Rightarrow> bool" where
  "isResolve (Resolve r) = True"
| "isResolve e = False"

fun window :: "bool \<Rightarrow> bool \<Rightarrow> bool \<Rightarrow> effect list \<Rightarrow> bool" where
  "window st rs p [] = (p \<longrightarrow> st \<and> \<not> rs)"
| "window st rs p (e # es) =
     ((p \<longrightarrow> st \<and> \<not> rs) \<and>
      window (st \<or> e = RecorderStop) (rs \<or> isResolve e) (proc_step e p) es)"

section \<open>Basic facts about traces\<close>

lemma run_Nil: "run [] s = s"
  by (simp add: run_def)

lemma run_Cons: "run (e # es) s = run es (apply_effect e s)"
  by (simp add: run_def)

lemma run_append: "run (xs @ ys) s = run ys (run xs s)"
  by (simp add: run_def)

lemma run_handle_fst: "fst (run (handle ev) s) = fst s"
  by (cases s; cases ev) (simp_all add: run_def)

lemma run_handle_all_fst: "fst (run (handle_all evs) s) = fst s"
proof (induction evs arbitrary: s)
  case Nil
  show ?case by (simp add: handle_all_def run_def)
next
  case (Cons ev evs)
  have "run (handle_all (ev # evs)) s = run (handle_all evs) (run (handle ev) s)"
    by (simp add: handle_all_def run_append)
  then show ?case using Cons.IH [of "run (handle ev) s"] by (simp add: run_handle_fst)
qed

lemma run_stopListening: "run (stopListening w) s = s"
  by (simp add: stopListening_def run_def)

lemma resolved_append:
  "resolved (xs @ ys) = (case resolved xs of None \<Rightarrow> resolved ys | Some r \<Rightarrow> Some r)"
  by (induction xs rule: resolved.induct) simp_all

lemma resolved_handle: "resolved (handle ev) = None"
  by (cases ev) simp_all

lemma resolved_handle_all: "resolved (handle_all evs) = None"
  by (induction evs) (simp_all add: handle_all_def resolved_append resolved_handle)

lemma resolved_stopListening: "resolved (stopListening w) = None"
  by (simp add: stopListening_def)

lemma resolved_webSpeech:
  assumes "isRecording v" "isListening w"
  shows "resolved (stopRecording evs up v w) = resolved (webSpeech_result w)"
  using assms
  by (simp add: stopRecording_def resolved_append resolved_handle_all resolved_stopListening)

lemma run_handle_all_pair:
  "run (handle_all evs) (v, w) = (v, snd (run (handle_all evs) (v, w)))"
  using run_handle_all_fst [of evs "(v, w)"] by (simp add: prod_eq_iff)

lemma run_stopRecording_webSpeech:
  assumes "isRecording v" "isListening w"
  shows "run (stopRecording evs up v w) (v, w)
           = run (webSpeech_result w)
               (v\<lparr>isRecording := False\<rparr>,
                snd (run (handle_all evs) (v\<lparr>isRecording := False\<rparr>, w)))"
proof -
  have "run (stopRecording evs up v w) (v, w)
          = run (webSpeech_result w) (run (handle_all evs) (v\<lparr>isRecording := False\<rparr>, w))"
    using assms by (simp add: stopRecording_def run_append run_stopListening run_Cons)
  then show ?thesis using run_handle_all_pair [of evs "v\<lparr>isRecording := False\<rparr>" w] by simp
qed

lemma run_webSpeech_result:
  "run (webSpeech_result w) (v', w') =
     (if transcript w \<noteq> [] \<and> trim (transcript w) \<noteq> [] then (v', w')
      else if truthy (ws_error w)
      then (v'\<lparr>error := Some (js ''Web Speech API error: '' @ the (ws_error w))\<rparr>, w')
      else (v'\<lparr>error := Some (js ''No speech detected. Please try again.'')\<rparr>, w'))"
  by (simp add: webSpeech_result_def run_Cons run_Nil)

lemma js_not_Nil: "s \<noteq> [] \<Longrightarrow> js s \<noteq> []"
  by (simp add: js_def)

lemma trim_Nil: "trim [] = []"
  by (simp add: trim_def)

lemmas session_defs = in_browser_session_def run_def handle_all_def startRecording_def
        startListening_def startListening_try_def initial_def

lemma in_browser_session_Voice:
  "fst (in_browser_session evs) = (fst (initial True))\<lparr>isRecording := True\<rparr>"
proof -
  have "fst (in_browser_session evs)
          = fst (run (startRecording GetUserMediaRejects Starts (snd (initial True)))
                   (initial True))"
    by (simp add: in_browser_session_def run_handle_all_fst)
  then show ?thesis
    by (simp add: startRecording_def startListening_def startListening_try_def initial_def
        run_def)
qed

lemma stopRecording_ignores_late_events:
  "resolved (stopRecording evs up v w) = resolved (stopRecording [] up v w)"
  by (simp add: stopRecording_def resolved_append resolved_handle_all resolved_stopListening)

lemma run_handle_snd: "snd (run (handle ev) (v, w)) = snd (run (handle ev) (v', w))"
  by (cases ev) (simp_all add: run_def)

lemma run_handle_all_snd:
  "snd (run (handle_all evs) (v, w)) = snd (run (handle_all evs) (v', w))"
proof (induction evs arbitrary: v v' w)
  case Nil
  show ?case by (simp add: handle_all_def run_def)
next
  case (Cons ev evs)
  have a: "run (handle_all (ev # evs)) (v, w)
             = run (handle_all evs) (fst (run (handle ev) (v, w)), snd (run (handle ev) (v, w)))"
    and b: "run (handle_all (ev # evs)) (v', w)
             = run (handle_all evs) (fst (run (handle ev) (v', w)), snd (run (handle ev) (v', w)))"
    by (simp_all add: handle_all_def run_append)
  show ?case
    unfolding a b run_handle_snd [of ev v w v'] by (rule Cons.IH)
qed

lemma recognition_handle: "recognition (snd (run (handle ev) s)) = recognition (snd s)"
  by (cases s; cases ev) (simp_all add: run_def)

lemma recognition_handle_all:
  "recognition (snd (run (handle_all evs) s)) = recognition (snd s)"
proof (induction evs arbitrary: s)
  case Nil
  show ?case by (simp add: handle_all_def run_def)
next
  case (Cons ev evs)
  have "run (handle_all (ev # evs)) s = run (handle_all evs) (run (handle ev) s)"
    by (simp add: handle_all_def run_append)
  then show ?case
    using Cons.IH [of "run (handle ev) s"] by (simp add: recognition_handle)
qed

lemma in_browser_session_recognition: "recognition (snd (in_browser_session evs))"
proof -
  have "recognition (snd (in_browser_session evs))
          = recognition (snd (run (startRecording GetUserMediaRejects Starts
                (snd (initial True))) (initial True)))"
    by (simp add: in_browser_session_def recognition_handle_all)
  then show ?thesis
    by (simp add: startRecording_def startListening_def startListening_try_def initial_def
        run_def)
qed

lemma set_startRecording_processing: "SetIsProcessing b \<notin> set (startRecording cap eng w)"
  by (cases cap; cases eng)
    (simp_all add: startRecording_def startRecording_try_def startListening_def
      startListening_try_def)

lemma stopped_tracks_append:
  "stopped_tracks (xs @ ys) = stopped_tracks xs @ stopped_tracks ys"
  by (induction xs rule: stopped_tracks.induct) simp_all

lemma stopped_tracks_map: "stopped_tracks (map TrackStop ts) = ts"
  by (induction ts) simp_all

lemma resolved_map_TrackStop: "resolved (map TrackStop ts) = None"
  by (induction ts) simp_all

lemma run_map_TrackStop: "run (map TrackStop ts) s = s"
  by (induction ts) (simp_all add: run_Nil run_Cons)

lemma device_session_eq:
  "device_session ts =
     ((fst (initial False))\<lparr>mediaRecorder := Some ts, isRecording := True\<rparr>,
      snd (initial False))"
  by (simp add: device_session_def startRecording_def startRecording_try_def initial_def
      run_def)

lemma isProcessing_apply_effect:
  "isProcessing (fst (apply_effect e s)) = proc_step e (isProcessing (fst s))"
  by (cases s; cases e) simp_all

lemma window_head: "window st rs p es \<Longrightarrow> p \<longrightarrow> st \<and> \<not> rs"
  by (cases es) simp_all

lemma window_sound:
  "window st rs p es \<Longrightarrow> isProcessing (fst s) = p \<Longrightarrow>
   isProcessing (fst (run (take n es) s)) \<Longrightarrow>
   (st \<or> RecorderStop \<in> set (take n es)) \<and> \<not> rs \<and> (\<forall>r. Resolve r \<notin> set (take n es))"
proof (induction es arbitrary: st rs p s n)
  case Nil
  then show ?case by (simp add: run_Nil)
next
  case (Cons e es)
  show ?case
  proof (cases n)
    case 0
    with Cons.prems show ?thesis by (simp add: run_Nil)
  next
    case (Suc m)
    from Cons.prems(1)
    have w: "window (st \<or> e = RecorderStop) (rs \<or> isResolve e) (proc_step e p) es"
      by simp
    have p: "isProcessing (fst (apply_effect e s)) = proc_step e p"
      using Cons.prems(2) by (simp add: isProcessing_apply_effect)
    have r: "isProcessing (fst (run (take m es) (apply_effect e s)))"
      using Cons.prems(3) Suc by (simp add: run_Cons)
    from Cons.IH [OF w p r]
    have "(st \<or> e = RecorderStop \<or> RecorderStop \<in> set (take m es)) \<and>
          \<not> rs \<and> \<not> isResolve e \<and> (\<forall>r. Resolve r \<notin> set (take m es))"
      by auto
    then show ?thesis using Suc by (cases e) auto
  qed
qed

lemma window_TrackStops:
  "window st rs p (map TrackStop ts @ es) = window st rs p es"
  by (induction ts) (auto dest: window_head)

lemma window_TrackStops_only:
  "window st rs p (map TrackStop ts) = (p \<longrightarrow> st \<and> \<not> rs)"
  using window_TrackStops [of st rs p ts "[]"] by simp

lemma window_device:
  "window False False False (RecorderStop # onstop up v)"
  by (cases up)
    (simp_all add: onstop_def onloadend_def processing_catch_def window_TrackStops
      window_TrackStops_only)

lemma set_handle_all_processing: "SetIsProcessing b \<notin> set (handle_all evs)"
proof (induction evs)
  case Nil
  show ?case by (simp add: handle_all_def)
next
  case (Cons ev evs)
  have "SetIsProcessing b \<notin> set (handle ev)" by (cases ev) simp_all
  with Cons show ?case by (simp add: handle_all_def)
qed

lemma before_settle_webSpeech:
  assumes "isRecording v" and "isListening w"
  shows "before_settle (stopRecording evs up v w) = stopListening w @ [SetIsRecording False]"
  using assms by (simp add: stopRecording_def before_settle_def stopListening_def)

section \<open>Stopping without a session\<close>

text \<open>
  C6. When \<open>stopRecording\<close> is called while the \<open>isRecording\<close> state is false, it resolves
  with null and performs no other effect: the state of both hooks, and with it the error
  field the hook returns, is what it was.
\<close>

theorem stopRecording_idle:
  assumes "\<not> isRecording v"
  shows "stopRecording evs up v w = [Resolve None] \<and>
         resolved (stopRecording evs up v w) = Some None \<and>
         run (stopRecording evs up v w) (v, w) = (v, w) \<and>
         hook_error (useVoiceRecording (run (stopRecording evs up v w) (v, w)))
           = hook_error (useVoiceRecording (v, w))"
  using assms by (simp add: stopRecording_def run_def)

theorem stopRecording_idle_witness:
  "\<not> isRecording (fst (initial True)) \<and>
   resolved (stopRecording [] GatewayFails (fst (initial True)) (snd (initial True)))
     = Some None"
  using stopRecording_idle [of "fst (initial True)" "[]" GatewayFails "snd (initial True)"]
  by (simp add: initial_def)

section \<open>The in-browser resolution policy\<close>

text \<open>
  When \<open>stopRecording\<close> is called on a render on which the \<open>isRecording\<close> state and the
  adapter's \<open>isListening\<close> are both true, it decides in this order on the adapter object
  of that render, whatever callbacks run during the settle delay: a transcript that is
  non-empty after trimming is returned trimmed; otherwise a non-empty adapter error is
  put, prefixed, in the error field; otherwise the error field becomes the no-speech
  message.
\<close>

lemma webSpeech_policy_on_calling_render:
  assumes "isRecording v" and "isListening w"
  shows "(trim (transcript w) \<noteq> [] \<longrightarrow>
            resolved (stopRecording evs up v w) = Some (Some (trim (transcript w))) \<and>
            error (fst (run (stopRecording evs up v w) (v, w))) = error v) \<and>
         (trim (transcript w) = [] \<and> ws_error w = Some e \<and> e \<noteq> [] \<longrightarrow>
            resolved (stopRecording evs up v w) = Some None \<and>
            hook_error (useVoiceRecording (run (stopRecording evs up v w) (v, w)))
              = Some (js ''Web Speech API error: '' @ e)) \<and>
         (trim (transcript w) = [] \<and> \<not> truthy (ws_error w) \<longrightarrow>
            resolved (stopRecording evs up v w) = Some None \<and>
            hook_error (useVoiceRecording (run (stopRecording evs up v w) (v, w)))
              = Some (js ''No speech detected. Please try again.''))"
proof (intro conjI impI)
  assume t: "trim (transcript w) \<noteq> []"
  then have "transcript w \<noteq> []" using trim_Nil by auto
  with t show "resolved (stopRecording evs up v w) = Some (Some (trim (transcript w)))"
    by (simp add: resolved_webSpeech [OF assms] webSpeech_result_def)
  from t \<open>transcript w \<noteq> []\<close>
  show "error (fst (run (stopRecording evs up v w) (v, w))) = error v"
    by (simp add: run_stopRecording_webSpeech [OF assms] run_webSpeech_result)
next
  assume h: "trim (transcript w) = [] \<and> ws_error w = Some e \<and> e \<noteq> []"
  then show "resolved (stopRecording evs up v w) = Some None"
    by (simp add: resolved_webSpeech [OF assms] webSpeech_result_def truthy_def)
  from h show "hook_error (useVoiceRecording (run (stopRecording evs up v w) (v, w)))
              = Some (js ''Web Speech API error: '' @ e)"
    by (simp add: useVoiceRecording_def run_stopRecording_webSpeech [OF assms]
        run_webSpeech_result truthy_def)
next
  assume h: "trim (transcript w) = [] \<and> \<not> truthy (ws_error w)"
  then show "resolved (stopRecording evs up v w) = Some None"
    by (simp add: resolved_webSpeech [OF assms] webSpeech_result_def)
  have "js ''No speech detected. Please try again.'' \<noteq> []"
    by (rule js_not_Nil) simp
  with h show "hook_error (useVoiceRecording (run (stopRecording evs up v w) (v, w)))
              = Some (js ''No speech detected. Please try again.'')"
    by (simp add: useVoiceRecording_def run_stopRecording_webSpeech [OF assms]
        run_webSpeech_result truthy_def)
qed

text \<open>
  C2 (the code at two inputs). First, a session is started on the in-browser path, the
  engine starts, delivers only an interim result with empty text and ends: the adapter
  holds an empty transcript and no error, but \<open>isListening\<close> is false, so \<open>stopRecording\<close>
  does not reach the resolution policy; it resolves null with no other effect and the
  error field the hook returns stays null. Second, \<open>stopRecording\<close> is called while the
  adapter is listening and the engine reports the error \<^verbatim>\<open>network\<close> during the settle
  delay: afterwards the adapter holds that error, but the call reads the adapter object
  of the render it was created on, and the error field the hook returns is the no-speech
  message.
\<close>

theorem stopRecording_empty_speech_silent:
  "isRecording (fst (in_browser_session [OnStart, OnResult [] None False, OnEnd])) \<and>
   transcript (snd (in_browser_session [OnStart, OnResult [] None False, OnEnd])) = [] \<and>
   ws_error (snd (in_browser_session [OnStart, OnResult [] None False, OnEnd])) = None \<and>
   stopRecording [] GatewayFails
       (fst (in_browser_session [OnStart, OnResult [] None False, OnEnd]))
       (snd (in_browser_session [OnStart, OnResult [] None False, OnEnd]))
     = [Resolve None] \<and>
   hook_error (useVoiceRecording (run
       (stopRecording [] GatewayFails
          (fst (in_browser_session [OnStart, OnResult [] None False, OnEnd]))
          (snd (in_browser_session [OnStart, OnResult [] None False, OnEnd])))
       (in_browser_session [OnStart, OnResult [] None False, OnEnd]))) = None \<and>
   isListening (snd (in_browser_session [OnStart])) \<and>
   ws_error (snd (run
       (stopRecording [OnError (js ''network'')] GatewayFails
          (fst (in_browser_session [OnStart])) (snd (in_browser_session [OnStart])))
       (in_browser_session [OnStart])))
     = Some (js ''Speech recognition error: '' @ js ''network'') \<and>
   resolved
       (stopRecording [OnError (js ''network'')] GatewayFails
          (fst (in_browser_session [OnStart])) (snd (in_browser_session [OnStart])))
     = Some None \<and>
   hook_error (useVoiceRecording (run
       (stopRecording [OnError (js ''network'')] GatewayFails
          (fst (in_browser_session [OnStart])) (snd (in_browser_session [OnStart])))
       (in_browser_session [OnStart])))
     = Some (js ''No speech detected. Please try again.'')"
proof -
  have c: "in_browser_session [OnStart, OnResult [] None False, OnEnd]
             = ((fst (initial True))\<lparr>isRecording := True\<rparr>,
                (snd (initial True))\<lparr>recognition := True, isListening := False\<rparr>)"
    by (simp add: session_defs)
  have s: "in_browser_session [OnStart]
             = ((fst (initial True))\<lparr>isRecording := True\<rparr>,
                (snd (initial True))\<lparr>recognition := True, isListening := True\<rparr>)"
    by (simp add: session_defs)
  have ne: "js ''No speech detected. Please try again.'' \<noteq> []"
    by (rule js_not_Nil) simp
  show ?thesis
    unfolding c s using ne
    by (simp add: initial_def stopRecording_def stopListening_def webSpeech_result_def
        handle_all_def run_def truthy_def trim_Nil useVoiceRecording_def)
qed

section \<open>Starting a session\<close>

text \<open>
  C3. When the adapter reports the recognition capability as supported, \<open>startRecording\<close>
  clears the error, delegates to the adapter's \<open>startListening\<close> and sets \<open>isRecording\<close>;
  it never calls \<^verbatim>\<open>getUserMedia\<close>, never creates or starts a media recorder, and leaves
  the recorder ref as it was.
\<close>

theorem startRecording_supported_no_device:
  assumes "isSupported w"
  shows "startRecording cap eng w
           = SetError None # startListening eng w @ [SetIsRecording True, Return] \<and>
         GetUserMedia \<notin> set (startRecording cap eng w) \<and>
         (\<forall>ts. NewMediaRecorder ts \<notin> set (startRecording cap eng w)) \<and>
         (\<forall>n. RecorderStart n \<notin> set (startRecording cap eng w)) \<and>
         mediaRecorder (fst (run (startRecording cap eng w) (v, w))) = mediaRecorder v \<and>
         isRecording (fst (run (startRecording cap eng w) (v, w)))"
  using assms
  by (cases eng)
    (simp_all add: startRecording_def startListening_def startListening_try_def run_def)

theorem startRecording_supported_no_device_witness:
  "isSupported (snd (initial True)) \<and>
   GetUserMedia \<notin> set (startRecording (Captures [0, 1]) Starts (snd (initial True))) \<and>
   isRecording (fst (run (startRecording (Captures [0, 1]) Starts (snd (initial True)))
                      (initial True)))"
proof -
  have h: "isSupported (snd (initial True))" by (simp add: initial_def)
  from startRecording_supported_no_device
      [OF h, of "Captures [0, 1]" Starts "fst (initial True)"] h
  show ?thesis by (metis prod.collapse)
qed

text \<open>
  C8. When the capability is not supported and \<^verbatim>\<open>getUserMedia\<close> rejects, the \<^verbatim>\<open>try\<close> block
  of \<open>startRecording\<close> throws, the \<^verbatim>\<open>catch\<close> sets the microphone-permission error, and the
  call returns normally; that error is the error field the hook returns, and the
  \<open>isRecording\<close> state and the \<open>isRecording\<close> field the hook returns are what they were.
\<close>

theorem startRecording_acquisition_fails:
  assumes "\<not> isSupported w"
  shows "startRecording_try GetUserMediaRejects = Inl [GetUserMedia] \<and>
         last (startRecording GetUserMediaRejects eng w) = Return \<and>
         error (fst (run (startRecording GetUserMediaRejects eng w) (v, w)))
           = Some (js ''Failed to start recording. Please check microphone permissions.'') \<and>
         hook_error (useVoiceRecording (run (startRecording GetUserMediaRejects eng w) (v, w)))
           = Some (js ''Failed to start recording. Please check microphone permissions.'') \<and>
         isRecording (fst (run (startRecording GetUserMediaRejects eng w) (v, w)))
           = isRecording v \<and>
         hook_isRecording (useVoiceRecording (run (startRecording GetUserMediaRejects eng w) (v, w)))
           = hook_isRecording (useVoiceRecording (v, w))"
proof -
  have ne: "js ''Failed to start recording. Please check microphone permissions.'' \<noteq> []"
    by (rule js_not_Nil) simp
  show ?thesis using assms ne
    by (simp add: startRecording_def startRecording_try_def run_Cons run_Nil
        useVoiceRecording_def truthy_def)
qed

theorem startRecording_acquisition_fails_witness:
  "\<not> isSupported (snd (initial False)) \<and>
   \<not> hook_isRecording (useVoiceRecording
       (run (startRecording GetUserMediaRejects Starts (snd (initial False))) (initial False))) \<and>
   hook_error (useVoiceRecording
       (run (startRecording GetUserMediaRejects Starts (snd (initial False))) (initial False)))
     = Some (js ''Failed to start recording. Please check microphone permissions.'')"
proof -
  have h: "\<not> isSupported (snd (initial False))" by (simp add: initial_def)
  have i: "\<not> hook_isRecording (useVoiceRecording (initial False))"
    by (simp add: initial_def useVoiceRecording_def)
  show ?thesis
    using startRecording_acquisition_fails [OF h, of Starts "fst (initial False)"] h i
    by simp
qed

section \<open>Stopping after the engine has ended\<close>

text \<open>
  C10. When \<open>stopRecording\<close> is called on a render on which the \<open>isRecording\<close> state is
  true, the adapter's \<open>isListening\<close> is false and no media recorder is held, the call
  resolves null with no other effect: no error is set and the \<open>isRecording\<close> state stays
  true, so the hook keeps reporting a recording. A session started on the in-browser path
  is in that state whenever its adapter is not listening: whatever engine callbacks have
  run, its \<open>isRecording\<close> state is true and it holds no media recorder.
\<close>

theorem stopRecording_after_engine_ended:
  assumes "isRecording v" and "\<not> isListening w" and "mediaRecorder v = None"
  shows "stopRecording late up v w = [Resolve None] \<and>
         resolved (stopRecording late up v w) = Some None \<and>
         run (stopRecording late up v w) (v, w) = (v, w) \<and>
         isRecording (fst (run (stopRecording late up v w) (v, w))) \<and>
         hook_isRecording (useVoiceRecording (run (stopRecording late up v w) (v, w))) \<and>
         error (fst (run (stopRecording late up v w) (v, w))) = error v \<and>
         isRecording (fst (in_browser_session evs)) \<and>
         mediaRecorder (fst (in_browser_session evs)) = None"
proof -
  have tr: "stopRecording late up v w = [Resolve None]"
    using assms by (simp add: stopRecording_def)
  have "isRecording (fst (in_browser_session evs))"
    and "mediaRecorder (fst (in_browser_session evs)) = None"
    by (simp_all add: in_browser_session_Voice initial_def)
  with assms(1) show ?thesis
    by (simp add: tr run_Cons run_Nil useVoiceRecording_def)
qed

theorem stopRecording_after_engine_ended_witness:
  "\<not> isListening (snd (in_browser_session [OnStart, OnEnd])) \<and>
   stopRecording [] GatewayFails (fst (in_browser_session [OnStart, OnEnd]))
       (snd (in_browser_session [OnStart, OnEnd])) = [Resolve None] \<and>
   hook_isRecording (useVoiceRecording (run
     (stopRecording [] GatewayFails (fst (in_browser_session [OnStart, OnEnd]))
        (snd (in_browser_session [OnStart, OnEnd])))
     (in_browser_session [OnStart, OnEnd])))"
proof -
  let ?s = "in_browser_session [OnStart, OnEnd]"
  have h: "isRecording (fst ?s)" "\<not> isListening (snd ?s)" "mediaRecorder (fst ?s) = None"
    by (simp_all add: session_defs)
  from stopRecording_after_engine_ended [OF h, of "[]" GatewayFails "[]"]
  have "stopRecording [] GatewayFails (fst ?s) (snd ?s) = [Resolve None]"
    and "hook_isRecording (useVoiceRecording
           (run (stopRecording [] GatewayFails (fst ?s) (snd ?s)) (fst ?s, snd ?s)))"
    by blast+
  with h(2) show ?thesis by simp
qed

section \<open>Final results\<close>

text \<open>
  C1 (the code at two inputs). A session is started on the in-browser path and the engine
  has started. First, \<open>stopRecording\<close> is called and the final result \<^verbatim>\<open>hello world\<close>
  arrives during the settle delay: afterwards the adapter holds that transcript, but the
  call reads the adapter object of the render it was created on, resolves null and sets
  the no-speech error. Second, the final result arrives before \<open>stopRecording\<close> is
  called: it has cleared \<open>isListening\<close>, and the call resolves null. The text is its own
  trimmed form.
\<close>

theorem stopRecording_final_result_lost:
  "isRecording (fst (in_browser_session [OnStart])) \<and>
   isListening (snd (in_browser_session [OnStart])) \<and>
   transcript (snd (run
       (stopRecording [OnResult (js ''hello world'') (Some (9/10)) True] GatewayFails
          (fst (in_browser_session [OnStart])) (snd (in_browser_session [OnStart])))
       (in_browser_session [OnStart]))) = js ''hello world'' \<and>
   resolved
       (stopRecording [OnResult (js ''hello world'') (Some (9/10)) True] GatewayFails
          (fst (in_browser_session [OnStart])) (snd (in_browser_session [OnStart])))
     = Some None \<and>
   error (fst (run
       (stopRecording [OnResult (js ''hello world'') (Some (9/10)) True] GatewayFails
          (fst (in_browser_session [OnStart])) (snd (in_browser_session [OnStart])))
       (in_browser_session [OnStart])))
     = Some (js ''No speech detected. Please try again.'') \<and>
   transcript (snd (in_browser_session
       [OnStart, OnResult (js ''hello world'') (Some (9/10)) True])) = js ''hello world'' \<and>
   resolved
       (stopRecording [] GatewayFails
          (fst (in_browser_session [OnStart, OnResult (js ''hello world'') (Some (9/10)) True]))
          (snd (in_browser_session [OnStart, OnResult (js ''hello world'') (Some (9/10)) True])))
     = Some None \<and>
   trim (js ''hello world'') = js ''hello world''"
proof -
  let ?s = "in_browser_session [OnStart]"
  let ?f = "in_browser_session [OnStart, OnResult (js ''hello world'') (Some (9/10)) True]"
  have s: "?s = ((fst (initial True))\<lparr>isRecording := True\<rparr>,
                 (snd (initial True))\<lparr>recognition := True, isListening := True\<rparr>)"
    by (simp add: session_defs)
  have f: "?f = ((fst (initial True))\<lparr>isRecording := True\<rparr>,
                 (snd (initial True))\<lparr>recognition := True, isListening := False,
                    transcript := js ''hello world'', confidence := 9/10\<rparr>)"
    by (simp add: session_defs)
  have t: "trim (js ''hello world'') = js ''hello world''"
    by (simp add: trim_def js_def isWhiteSpace_def)
  show ?thesis
    unfolding s f
    by (simp add: t initial_def stopRecording_def stopListening_def webSpeech_result_def
        handle_all_def run_def truthy_def trim_Nil)
qed

section \<open>The device path\<close>

text \<open>
  C4. On the device path (the \<open>isRecording\<close> state is true, the adapter is not listening
  and a media recorder with tracks \<open>ts\<close> is held), for every outcome of the processing
  that follows the recorder's stop, the calls of \<^verbatim>\<open>track.stop()\<close> are exactly the tracks
  of the stream, each once and in order, so their number is the number of tracks; and
  the promise is resolved.
\<close>

theorem stopRecording_stops_every_track_once:
  assumes "isRecording v" and "\<not> isListening w" and "mediaRecorder v = Some ts"
  shows "stopped_tracks (stopRecording evs up v w) = ts \<and>
         length (stopped_tracks (stopRecording evs up v w)) = length ts \<and>
         (\<exists>r. resolved (stopRecording evs up v w) = Some r)"
  using assms
  by (cases up)
    (simp_all add: stopRecording_def onstop_def onloadend_def processing_catch_def
      stopped_tracks_append stopped_tracks_map resolved_append resolved_map_TrackStop)

theorem stopRecording_stops_every_track_once_witness:
  "stopped_tracks (stopRecording [] (GatewayReturns (Some (js ''transcribed'')))
       (fst (device_session [0, 1])) (snd (device_session [0, 1]))) = [0, 1] \<and>
   stopped_tracks (stopRecording [] GatewayFails
       (fst (device_session [0, 1])) (snd (device_session [0, 1]))) = [0, 1] \<and>
   stopped_tracks (stopRecording [] BlobFails
       (fst (device_session [0, 1])) (snd (device_session [0, 1]))) = [0, 1]"
proof -
  let ?s = "device_session [0, 1]"
  have h: "isRecording (fst ?s)" "\<not> isListening (snd ?s)" "mediaRecorder (fst ?s) = Some [0, 1]"
    by (simp_all add: device_session_eq initial_def)
  show ?thesis
    using stopRecording_stops_every_track_once [OF h, of "[]" "GatewayReturns (Some (js ''transcribed''))"]
      stopRecording_stops_every_track_once [OF h, of "[]" GatewayFails]
      stopRecording_stops_every_track_once [OF h, of "[]" BlobFails]
    by simp
qed

text \<open>
  C5. Starting from \<open>isProcessing\<close> false: on the device path, at every point of the
  trace of \<open>stopRecording\<close> at which \<open>isProcessing\<close> is true, the recorder has been stopped
  and the promise is not yet resolved; \<open>isProcessing\<close> is set to true, the promise is
  resolved for every outcome of the processing, and \<open>isProcessing\<close> is false at the end.
  Whenever \<open>stopRecording\<close> does not take the device path (no session, the adapter
  listening, or no media recorder held), no call of \<^verbatim>\<open>setIsProcessing\<close> occurs and
  \<open>isProcessing\<close> keeps its value. \<open>startRecording\<close> never calls \<^verbatim>\<open>setIsProcessing\<close>. So in a
  session started on the in-browser path, whatever engine callbacks have run and whether
  or not the engine has ended, \<open>isProcessing\<close> is false and \<open>stopRecording\<close> does not set
  it.
\<close>

theorem isProcessing_window:
  "(isRecording v \<and> \<not> isProcessing v \<and> \<not> isListening w \<and> mediaRecorder v = Some ts \<longrightarrow>
      (\<forall>n. isProcessing (fst (run (take n (stopRecording evs up v w)) (v, w))) \<longrightarrow>
           RecorderStop \<in> set (take n (stopRecording evs up v w)) \<and>
           (\<forall>r. Resolve r \<notin> set (take n (stopRecording evs up v w)))) \<and>
      SetIsProcessing True \<in> set (stopRecording evs up v w) \<and>
      (\<exists>r. resolved (stopRecording evs up v w) = Some r) \<and>
      \<not> isProcessing (fst (run (stopRecording evs up v w) (v, w)))) \<and>
   (\<not> isRecording v \<or> isListening w \<or> mediaRecorder v = None \<longrightarrow>
      (\<forall>b. SetIsProcessing b \<notin> set (stopRecording evs up v w)) \<and>
      isProcessing (fst (run (stopRecording evs up v w) (v, w))) = isProcessing v) \<and>
   (\<forall>b. SetIsProcessing b \<notin> set (startRecording cap eng w)) \<and>
   \<not> isProcessing (fst (in_browser_session evs')) \<and>
   (\<forall>b. SetIsProcessing b \<notin> set (stopRecording evs up (fst (in_browser_session evs'))
                                    (snd (in_browser_session evs'))))"
proof -
  have device: "(\<forall>n. isProcessing (fst (run (take n (stopRecording evs up v w)) (v, w))) \<longrightarrow>
           RecorderStop \<in> set (take n (stopRecording evs up v w)) \<and>
           (\<forall>r. Resolve r \<notin> set (take n (stopRecording evs up v w)))) \<and>
      SetIsProcessing True \<in> set (stopRecording evs up v w) \<and>
      (\<exists>r. resolved (stopRecording evs up v w) = Some r) \<and>
      \<not> isProcessing (fst (run (stopRecording evs up v w) (v, w)))"
    if d: "isRecording v \<and> \<not> isProcessing v \<and> \<not> isListening w \<and> mediaRecorder v = Some ts"
  proof (intro conjI allI impI)
    from d have tr: "stopRecording evs up v w = RecorderStop # onstop up v"
      by (simp add: stopRecording_def)
    have p0: "isProcessing (fst (v, w)) = False" using d by simp
    fix n
    assume p: "isProcessing (fst (run (take n (stopRecording evs up v w)) (v, w)))"
    from window_sound [OF window_device p0, of n up v] p tr
    show "RecorderStop \<in> set (take n (stopRecording evs up v w))"
      and "\<And>r. Resolve r \<notin> set (take n (stopRecording evs up v w))"
      by auto
  next
    from d have tr: "stopRecording evs up v w = RecorderStop # onstop up v"
      by (simp add: stopRecording_def)
    show "SetIsProcessing True \<in> set (stopRecording evs up v w)"
      by (simp add: tr onstop_def)
    show "\<exists>r. resolved (stopRecording evs up v w) = Some r"
      unfolding tr
      by (cases up)
        (simp_all add: onstop_def onloadend_def processing_catch_def resolved_append
          resolved_map_TrackStop)
    show "\<not> isProcessing (fst (run (stopRecording evs up v w) (v, w)))"
      unfolding tr
      by (cases up)
        (simp_all add: onstop_def onloadend_def processing_catch_def run_Cons run_Nil
          run_append run_map_TrackStop)
  qed
  have other: "(\<forall>b. SetIsProcessing b \<notin> set (stopRecording evs up v w)) \<and>
      isProcessing (fst (run (stopRecording evs up v w) (v, w))) = isProcessing v"
    if d: "\<not> isRecording v \<or> isListening w \<or> mediaRecorder v = None" for v w
  proof (cases "isRecording v \<and> isListening w")
    case True
    then have r: "isRecording v" and l: "isListening w" by simp_all
    have "\<forall>b. SetIsProcessing b \<notin> set (stopRecording evs up v w)"
      using r l
      by (simp add: stopRecording_def stopListening_def webSpeech_result_def
          set_handle_all_processing)
    moreover have "isProcessing (fst (run (stopRecording evs up v w) (v, w))) = isProcessing v"
      by (simp add: run_stopRecording_webSpeech [OF r l] run_webSpeech_result)
    ultimately show ?thesis by simp
  next
    case False
    with d have "stopRecording evs up v w = [Resolve None]"
      by (auto simp add: stopRecording_def)
    then show ?thesis by (simp add: run_Cons run_Nil)
  qed
  have session: "\<not> isProcessing (fst (in_browser_session evs'))"
    "mediaRecorder (fst (in_browser_session evs')) = None"
    by (simp_all add: in_browser_session_Voice initial_def)
  from other [of "fst (in_browser_session evs')" "snd (in_browser_session evs')"] session(2)
  have "\<forall>b. SetIsProcessing b \<notin> set (stopRecording evs up (fst (in_browser_session evs'))
                                    (snd (in_browser_session evs')))"
    by simp
  with device other [of v w] session(1) set_startRecording_processing [of _ cap eng w]
  show ?thesis by blast
qed

theorem isProcessing_window_witness:
  "isProcessing (fst (run (take 3 (stopRecording [] GatewayNoData
       (fst (device_session [0, 1])) (snd (device_session [0, 1])))) (device_session [0, 1]))) \<and>
   RecorderStop \<in> set (take 3 (stopRecording [] GatewayNoData
       (fst (device_session [0, 1])) (snd (device_session [0, 1])))) \<and>
   \<not> isProcessing (fst (run (stopRecording [] GatewayNoData
       (fst (device_session [0, 1])) (snd (device_session [0, 1]))) (device_session [0, 1]))) \<and>
   SetIsProcessing True \<notin> set (stopRecording [] GatewayNoData
       (fst (in_browser_session [OnStart, OnEnd])) (snd (in_browser_session [OnStart, OnEnd])))"
proof -
  let ?s = "device_session [0, 1]"
  let ?tr = "stopRecording [] GatewayNoData (fst ?s) (snd ?s)"
  let ?b = "in_browser_session [OnStart, OnEnd]"
  have d: "isRecording (fst ?s) \<and> \<not> isProcessing (fst ?s) \<and>
           \<not> isListening (snd ?s) \<and> mediaRecorder (fst ?s) = Some [0, 1]"
    by (simp add: device_session_eq initial_def)
  have p: "isProcessing (fst (run (take 3 ?tr) (fst ?s, snd ?s)))"
    by (simp add: device_session_eq initial_def stopRecording_def onstop_def run_def)
  have e: "\<not> isRecording (fst ?b) \<or> isListening (snd ?b) \<or> mediaRecorder (fst ?b) = None"
    by (simp add: session_defs)
  from isProcessing_window [of "fst ?s" "snd ?s" "[0, 1]" "[]" GatewayNoData] d
  have a: "\<forall>n. isProcessing (fst (run (take n ?tr) (fst ?s, snd ?s))) \<longrightarrow>
               RecorderStop \<in> set (take n ?tr) \<and> (\<forall>r. Resolve r \<notin> set (take n ?tr))"
    and b: "\<not> isProcessing (fst (run ?tr (fst ?s, snd ?s)))"
    by blast+
  from isProcessing_window [of "fst ?b" "snd ?b" _ "[]" GatewayNoData] e
  have c: "SetIsProcessing True \<notin> set (stopRecording [] GatewayNoData (fst ?b) (snd ?b))"
    by blast
  from a p have "RecorderStop \<in> set (take 3 ?tr)" by blast
  with p b c show ?thesis by simp
qed

section \<open>The isRecording flag\<close>

text \<open>
  C7 (amended). When \<open>stopRecording\<close> is called on a render on which the \<open>isRecording\<close>
  state and the adapter's \<open>isListening\<close> are both true, its trace is: the adapter's
  \<open>stopListening\<close>, then the clearing of the \<open>isRecording\<close> state, then the settle delay,
  then whatever engine callbacks run during the delay, then the resolution. So what
  precedes the settle delay is the stop signal immediately followed by the clearing of
  the state, and when the adapter holds an engine, as it does in every session started on
  the in-browser path, the signal is the engine's \<^verbatim>\<open>stop()\<close>. Before the settle delay the
  \<open>isRecording\<close> state is false, but the \<open>isRecording\<close> field the hook returns, which is
  the disjunction of that state and the adapter's \<open>isListening\<close>, is still true; after the
  call it equals the adapter's \<open>isListening\<close> as left by the engine callbacks that ran
  during the delay. While a session is active on either path (started and not yet
  stopped), the field is true; after \<open>stopRecording\<close> on the device path it is false.
\<close>

theorem stopRecording_webSpeech_isRecording:
  assumes "isRecording v" and "isListening w"
  shows "stopRecording evs up v w
           = stopListening w @ [SetIsRecording False, SetTimeout 1000] @ handle_all evs @
             webSpeech_result w \<and>
         before_settle (stopRecording evs up v w) = stopListening w @ [SetIsRecording False] \<and>
         (recognition w \<longrightarrow>
            before_settle (stopRecording evs up v w) = [RecognitionStop, SetIsRecording False]) \<and>
         recognition (snd (in_browser_session evs')) \<and>
         SetTimeout 1000 \<in> set (stopRecording evs up v w) \<and>
         \<not> isRecording (fst (run (before_settle (stopRecording evs up v w)) (v, w))) \<and>
         hook_isRecording (useVoiceRecording
           (run (before_settle (stopRecording evs up v w)) (v, w))) \<and>
         hook_isRecording (useVoiceRecording (run (stopRecording evs up v w) (v, w)))
           = isListening (snd (run (handle_all evs) (v, w))) \<and>
         hook_isRecording (useVoiceRecording (v', w'))
           = (isRecording v' \<or> isListening w') \<and>
         hook_isRecording (useVoiceRecording (in_browser_session evs')) \<and>
         hook_isRecording (useVoiceRecording (device_session ts)) \<and>
         \<not> hook_isRecording (useVoiceRecording
             (run (stopRecording evs up (fst (device_session ts)) (snd (device_session ts)))
                (device_session ts)))"
proof (intro conjI impI)
  show "stopRecording evs up v w
          = stopListening w @ [SetIsRecording False, SetTimeout 1000] @ handle_all evs @
            webSpeech_result w"
    using assms by (simp add: stopRecording_def)
  show "before_settle (stopRecording evs up v w) = stopListening w @ [SetIsRecording False]"
    by (rule before_settle_webSpeech [OF assms])
  show "before_settle (stopRecording evs up v w) = [RecognitionStop, SetIsRecording False]"
    if "recognition w"
    using that by (simp add: before_settle_webSpeech [OF assms] stopListening_def)
  show "recognition (snd (in_browser_session evs'))"
    by (rule in_browser_session_recognition)
  show "SetTimeout 1000 \<in> set (stopRecording evs up v w)"
    using assms by (simp add: stopRecording_def)
  show "\<not> isRecording (fst (run (before_settle (stopRecording evs up v w)) (v, w)))"
    by (simp add: before_settle_webSpeech [OF assms] run_append run_stopListening run_Cons
        run_Nil)
  show "hook_isRecording (useVoiceRecording
          (run (before_settle (stopRecording evs up v w)) (v, w)))"
    using assms(2)
    by (simp add: before_settle_webSpeech [OF assms] run_append run_stopListening run_Cons
        run_Nil useVoiceRecording_def)
  have "snd (run (handle_all evs) (v\<lparr>isRecording := False\<rparr>, w))
          = snd (run (handle_all evs) (v, w))"
    by (rule run_handle_all_snd)
  then show "hook_isRecording (useVoiceRecording (run (stopRecording evs up v w) (v, w)))
          = isListening (snd (run (handle_all evs) (v, w)))"
    by (simp add: run_stopRecording_webSpeech [OF assms] run_webSpeech_result
        useVoiceRecording_def)
  show "hook_isRecording (useVoiceRecording (v', w')) = (isRecording v' \<or> isListening w')"
    by (simp add: useVoiceRecording_def)
  show "hook_isRecording (useVoiceRecording (in_browser_session evs'))"
    by (simp add: useVoiceRecording_def in_browser_session_Voice)
  show "hook_isRecording (useVoiceRecording (device_session ts))"
    by (simp add: useVoiceRecording_def device_session_eq)
  have "stopRecording evs up (fst (device_session ts)) (snd (device_session ts))
          = RecorderStop # onstop up (fst (device_session ts))"
    by (simp add: device_session_eq initial_def stopRecording_def)
  then show "\<not> hook_isRecording (useVoiceRecording
             (run (stopRecording evs up (fst (device_session ts)) (snd (device_session ts)))
                (device_session ts)))"
    by (cases up)
      (simp_all add: device_session_eq initial_def onstop_def onloadend_def
        processing_catch_def run_Cons run_Nil run_append run_map_TrackStop
        useVoiceRecording_def)
qed

theorem stopRecording_webSpeech_isRecording_witness:
  "before_settle (stopRecording [OnEnd] GatewayFails
       (fst (in_browser_session [OnStart])) (snd (in_browser_session [OnStart])))
     = [RecognitionStop, SetIsRecording False] \<and>
   hook_isRecording (useVoiceRecording (run (stopRecording [OnEnd] GatewayFails
       (fst (in_browser_session [OnStart])) (snd (in_browser_session [OnStart])))
     (in_browser_session [OnStart]))) = False \<and>
   \<not> isRecording (fst (run (before_settle (stopRecording [OnEnd] GatewayFails
       (fst (in_browser_session [OnStart])) (snd (in_browser_session [OnStart]))))
     (in_browser_session [OnStart])))"
proof -
  let ?s = "in_browser_session [OnStart]"
  let ?tr = "stopRecording [OnEnd] GatewayFails (fst ?s) (snd ?s)"
  have h: "isRecording (fst ?s)" "isListening (snd ?s)"
    by (simp_all add: session_defs)
  have g: "recognition (snd ?s)"
    by (simp add: session_defs)
  have e: "\<not> isListening (snd (run (handle_all [OnEnd]) (fst ?s, snd ?s)))"
    by (cases "in_browser_session [OnStart]") (simp add: handle_all_def run_def)
  from stopRecording_webSpeech_isRecording [OF h, of "[OnEnd]" GatewayFails] g
  have a: "before_settle ?tr = [RecognitionStop, SetIsRecording False]"
    by blast
  from stopRecording_webSpeech_isRecording [OF h, of "[OnEnd]" GatewayFails]
  have b: "\<not> isRecording (fst (run (before_settle ?tr) (fst ?s, snd ?s)))"
    and c: "hook_isRecording (useVoiceRecording (run ?tr (fst ?s, snd ?s)))
              = isListening (snd (run (handle_all [OnEnd]) (fst ?s, snd ?s)))"
    by blast+
  from c e have "hook_isRecording (useVoiceRecording (run ?tr (fst ?s, snd ?s))) = False"
    by simp
  with a b show ?thesis by simp
qed

text \<open>
  C7 (counterexample). In a session started on the in-browser path whose engine has
  started, \<open>stopRecording\<close> signals the adapter to stop and clears the \<open>isRecording\<close>
  state, and at that point, before the settle delay, the \<open>isRecording\<close> field the hook
  returns is still true. And in a session whose engine has ended on its own, after
  \<open>stopRecording\<close> has resolved, the field is true although nothing is capturing.
\<close>

theorem stopRecording_isRecording_not_cleared:
  "isRecording (fst (in_browser_session [OnStart])) \<and>
   isListening (snd (in_browser_session [OnStart])) \<and>
   before_settle (stopRecording [] GatewayFails
       (fst (in_browser_session [OnStart])) (snd (in_browser_session [OnStart])))
     = [RecognitionStop, SetIsRecording False] \<and>
   hook_isRecording (useVoiceRecording (run (before_settle (stopRecording [] GatewayFails
       (fst (in_browser_session [OnStart])) (snd (in_browser_session [OnStart]))))
     (in_browser_session [OnStart]))) \<and>
   resolved (stopRecording [] GatewayFails
       (fst (in_browser_session [OnStart, OnEnd])) (snd (in_browser_session [OnStart, OnEnd])))
     = Some None \<and>
   hook_isRecording (useVoiceRecording (run (stopRecording [] GatewayFails
       (fst (in_browser_session [OnStart, OnEnd])) (snd (in_browser_session [OnStart, OnEnd])))
     (in_browser_session [OnStart, OnEnd])))"
proof -
  have s: "in_browser_session [OnStart] = ((fst (initial True))\<lparr>isRecording := True\<rparr>,
                 (snd (initial True))\<lparr>recognition := True, isListening := True\<rparr>)"
    by (simp add: session_defs)
  have t: "in_browser_session [OnStart, OnEnd] = ((fst (initial True))\<lparr>isRecording := True\<rparr>,
                 (snd (initial True))\<lparr>recognition := True, isListening := False\<rparr>)"
    by (simp add: session_defs)
  show ?thesis
    unfolding s t
    by (simp add: initial_def stopRecording_def stopListening_def before_settle_def
        run_def useVoiceRecording_def)
qed

section \<open>Starting the adapter\<close>

text \<open>
  C9 (amended). When the capability is supported, \<open>startListening\<close> first sets the error
  to null and the transcript to the empty string and only then creates and starts the
  engine; it never sets the confidence, which keeps its value; the transcript is empty
  afterwards, and when the engine starts the error is null. When the capability is not
  supported, its only effect is to set the unsupported error.
\<close>

theorem startListening_resets:
  "(isSupported w \<longrightarrow>
      take 2 (startListening eng w) = [WsSetError None, WsSetTranscript []] \<and>
      (\<forall>c. WsSetConfidence c \<notin> set (startListening eng w)) \<and>
      transcript (snd (run (startListening eng w) (v, w))) = [] \<and>
      confidence (snd (run (startListening eng w) (v, w))) = confidence w \<and>
      (eng = Starts \<longrightarrow>
         startListening eng w
           = [WsSetError None, WsSetTranscript [], NewSpeechRecognition, RecognitionStart] \<and>
         ws_error (snd (run (startListening eng w) (v, w))) = None)) \<and>
   (\<not> isSupported w \<longrightarrow>
      startListening eng w
        = [WsSetError (Some (js ''Speech recognition is not supported in this browser''))] \<and>
      run (startListening eng w) (v, w)
        = (v, w\<lparr>ws_error :=
                  Some (js ''Speech recognition is not supported in this browser'')\<rparr>))"
  by (cases eng) (simp_all add: startListening_def startListening_try_def run_def)

theorem startListening_resets_witness:
  "transcript (snd (run (startListening Starts
       (snd (in_browser_session [OnStart, OnResult (js ''hello world'') (Some (9/10)) True])))
     (in_browser_session [OnStart, OnResult (js ''hello world'') (Some (9/10)) True]))) = [] \<and>
   confidence (snd (run (startListening Starts
       (snd (in_browser_session [OnStart, OnResult (js ''hello world'') (Some (9/10)) True])))
     (in_browser_session [OnStart, OnResult (js ''hello world'') (Some (9/10)) True])))
     = 9/10 \<and>
   startListening Starts (snd (initial False))
     = [WsSetError (Some (js ''Speech recognition is not supported in this browser''))]"
proof -
  let ?s = "in_browser_session [OnStart, OnResult (js ''hello world'') (Some (9/10)) True]"
  have h: "isSupported (snd ?s)" "confidence (snd ?s) = 9/10"
    by (simp_all add: session_defs)
  have u: "\<not> isSupported (snd (initial False))"
    by (simp add: initial_def)
  from startListening_resets [of "snd ?s" Starts "fst ?s"] h
  have a: "transcript (snd (run (startListening Starts (snd ?s)) (fst ?s, snd ?s))) = []"
    and b: "confidence (snd (run (startListening Starts (snd ?s)) (fst ?s, snd ?s)))
              = confidence (snd ?s)"
    by blast+
  from startListening_resets [of "snd (initial False)" Starts "fst (initial False)"] u
  have c: "startListening Starts (snd (initial False))
             = [WsSetError (Some (js ''Speech recognition is not supported in this browser''))]"
    by blast
  from a b c h(2) show ?thesis by simp
qed

text \<open>
  C9 (counterexample). After a final result with confidence 0.9, a new call of
  \<open>startListening\<close> on a supported platform leaves the confidence at 0.9, which is not
  its initial value 0.
\<close>

theorem startListening_keeps_confidence:
  "isSupported
     (snd (in_browser_session [OnStart, OnResult (js ''hello world'') (Some (9/10)) True])) \<and>
   confidence (snd (initial True)) = 0 \<and>
   confidence (snd (run (startListening Starts
       (snd (in_browser_session [OnStart, OnResult (js ''hello world'') (Some (9/10)) True])))
     (in_browser_session [OnStart, OnResult (js ''hello world'') (Some (9/10)) True])))
     = 9/10 \<and>
   confidence (snd (run (startListening Starts
       (snd (in_browser_session [OnStart, OnResult (js ''hello world'') (Some (9/10)) True])))
     (in_browser_session [OnStart, OnResult (js ''hello world'') (Some (9/10)) True])))
     \<noteq> confidence (snd (initial True))"
proof -
  have f: "in_browser_session [OnStart, OnResult (js ''hello world'') (Some (9/10)) True]
             = ((fst (initial True))\<lparr>isRecording := True\<rparr>,
                 (snd (initial True))\<lparr>recognition := True, isListening := False,
                    transcript := js ''hello world'', confidence := 9/10\<rparr>)"
    by (simp add: session_defs)
  show ?thesis
    unfolding f
    by (simp add: initial_def startListening_def startListening_try_def run_def)
qed

end
